theory Spec2Isabelle
  imports Complex_Main "HOL-Library.Char_ord"
begin

section \<open>The script \<open>importing-eeg-data.py\<close>\<close>

text \<open>
  The script is thirteen lines of Python:
  \<^verbatim>\<open>
  import mne

  raw = mne.io.read_raw_edf("S001R04.edf", preload=True)
  raw.rename_channels(lambda s: s.strip("."))

  montage = mne.channels.make_standard_montage("easycap-M1")

  raw.drop_channels(["T9", "T10"])
  raw.set_montage(montage, match_case=False)

  raw.set_eeg_reference("average")
  \<close>
  Its own logic is the callable handed to \<open>rename_channels\<close>, the literal arguments, and
  the order of the six calls. Everything else happens inside the third-party library
  \<open>mne\<close>.
\<close>

subsection \<open>Python's \<open>str.strip\<close>\<close>

text \<open>
  \<open>s.strip(chars)\<close> returns \<open>s\<close> without the longest prefix and the longest suffix made
  of characters that occur in \<open>chars\<close>. The interpreter advances an index from the left
  while the character belongs to \<open>chars\<close>, then moves an index back from the right in the
  same way, and returns the slice between the two. \<open>lstrip\<close> is the left scan;
  \<open>rstrip\<close> is the same scan from the other end.
\<close>

fun lstrip :: "string \<Rightarrow> string \<Rightarrow> string" where
  "lstrip chars [] = []"
| "lstrip chars (c # s) = (if c \<in> set chars then lstrip chars s else c # s)"

definition rstrip :: "string \<Rightarrow> string \<Rightarrow> string" where
  "rstrip chars s = rev (lstrip chars (rev s))"

definition strip :: "string \<Rightarrow> string \<Rightarrow> string" where
  "strip chars s = rstrip chars (lstrip chars s)"

text \<open>The callable of line 6: \<^verbatim>\<open>lambda s: s.strip(".")\<close>.\<close>

definition rename_label :: "string \<Rightarrow> string" where
  "rename_label s = strip ''.'' s"

text \<open>
  The transformation as the specification words it: "strips trailing \<open>"."\<close> characters".
  It is written independently of \<open>strip\<close>, from the right end of the label: a dot is
  removed exactly when nothing but removed dots follows it.
\<close>

fun strip_trailing_dots :: "string \<Rightarrow> string" where
  "strip_trailing_dots [] = []"
| "strip_trailing_dots (c # s) =
     (if c = CHR ''.'' \<and> strip_trailing_dots s = [] then [] else c # strip_trailing_dots s)"

text \<open>\<open>s.endswith(".")\<close>.\<close>

definition ends_with_dot :: "string \<Rightarrow> bool" where
  "ends_with_dot s = (s \<noteq> [] \<and> last s = CHR ''.'')"

text \<open>\<open>s.startswith(".")\<close>.\<close>

definition starts_with_dot :: "string \<Rightarrow> bool" where
  "starts_with_dot s = (s \<noteq> [] \<and> hd s = CHR ''.'')"

subsection \<open>The library, as the script sees it\<close>

text \<open>
  \<open>mne\<close> is third-party code and no part of the repository. The script's behaviour is
  therefore stated for an arbitrary library: a record of the six operations the script
  calls. A method that mutates the recording in place takes the object and returns the
  object as the call leaves it, together with the exception it raised, if any; a call
  may have mutated the object before it raises. \<open>read_raw_edf\<close> and
  \<open>make_standard_montage\<close> build a new object or raise. The type \<open>'r\<close> is the recording,
  \<open>'m\<close> the montage, \<open>'e\<close> the library's exceptions.
\<close>

record ('r, 'm, 'e) mne =
  read_raw_edf :: "string \<Rightarrow> bool \<Rightarrow> 'e + 'r"
  rename_channels :: "(string \<Rightarrow> string) \<Rightarrow> 'r \<Rightarrow> 'r \<times> 'e option"
  make_standard_montage :: "string \<Rightarrow> 'e + 'm"
  drop_channels :: "string list \<Rightarrow> 'r \<Rightarrow> 'r \<times> 'e option"
  set_montage :: "'m \<Rightarrow> bool \<Rightarrow> 'r \<Rightarrow> 'r \<times> 'e option"
  set_eeg_reference :: "string \<Rightarrow> 'r \<Rightarrow> 'r \<times> 'e option"

subsection \<open>The module body\<close>

text \<open>
  The module has two global names, \<open>raw\<close> and \<open>montage\<close>, unbound until their
  assignment has completed. Reading an unbound name raises \<open>NameError\<close>; every other
  exception comes out of the library.
\<close>

record ('r, 'm) globals =
  raw :: "'r option"
  montage :: "'m option"

datatype 'e exn = NameError string | Raised 'e

text \<open>
  A statement maps the globals to the globals it leaves behind and the exception it
  raised, if any.
\<close>

type_synonym ('r, 'm, 'e) stmt = "('r, 'm) globals \<Rightarrow> ('r, 'm) globals \<times> 'e exn option"

text \<open>\<open>raw.method(...)\<close>: look \<open>raw\<close> up, call the method on the object it names.\<close>

definition call_on_raw :: "('r \<Rightarrow> 'r \<times> 'e option) \<Rightarrow> ('r, 'm, 'e) stmt" where
  "call_on_raw method g =
     (case raw g of
        None \<Rightarrow> (g, Some (NameError ''raw''))
      | Some r \<Rightarrow> (case method r of (r', e) \<Rightarrow> (g\<lparr>raw := Some r'\<rparr>, map_option Raised e)))"

text \<open>Line 5: \<^verbatim>\<open>raw = mne.io.read_raw_edf("S001R04.edf", preload=True)\<close>\<close>

definition stmt_load :: "('r, 'm, 'e) mne \<Rightarrow> ('r, 'm, 'e) stmt" where
  "stmt_load lib g =
     (case read_raw_edf lib ''S001R04.edf'' True of
        Inl e \<Rightarrow> (g, Some (Raised e))
      | Inr r \<Rightarrow> (g\<lparr>raw := Some r\<rparr>, None))"

text \<open>Line 6: \<^verbatim>\<open>raw.rename_channels(lambda s: s.strip("."))\<close>\<close>

definition stmt_rename :: "('r, 'm, 'e) mne \<Rightarrow> ('r, 'm, 'e) stmt" where
  "stmt_rename lib = call_on_raw (rename_channels lib rename_label)"

text \<open>Line 8: \<^verbatim>\<open>montage = mne.channels.make_standard_montage("easycap-M1")\<close>\<close>

definition stmt_make_montage :: "('r, 'm, 'e) mne \<Rightarrow> ('r, 'm, 'e) stmt" where
  "stmt_make_montage lib g =
     (case make_standard_montage lib ''easycap-M1'' of
        Inl e \<Rightarrow> (g, Some (Raised e))
      | Inr m \<Rightarrow> (g\<lparr>montage := Some m\<rparr>, None))"

text \<open>Line 10: \<^verbatim>\<open>raw.drop_channels(["T9", "T10"])\<close>\<close>

definition stmt_drop :: "('r, 'm, 'e) mne \<Rightarrow> ('r, 'm, 'e) stmt" where
  "stmt_drop lib = call_on_raw (drop_channels lib [''T9'', ''T10''])"

text \<open>
  Line 11: \<^verbatim>\<open>raw.set_montage(montage, match_case=False)\<close>. Python evaluates
  \<open>raw.set_montage\<close> before the argument \<open>montage\<close>.
\<close>

definition stmt_set_montage :: "('r, 'm, 'e) mne \<Rightarrow> ('r, 'm, 'e) stmt" where
  "stmt_set_montage lib g =
     (case raw g of
        None \<Rightarrow> (g, Some (NameError ''raw''))
      | Some r \<Rightarrow>
          (case montage g of
             None \<Rightarrow> (g, Some (NameError ''montage''))
           | Some m \<Rightarrow> call_on_raw (set_montage lib m False) g))"

text \<open>Line 13: \<^verbatim>\<open>raw.set_eeg_reference("average")\<close>\<close>

definition stmt_reref :: "('r, 'm, 'e) mne \<Rightarrow> ('r, 'm, 'e) stmt" where
  "stmt_reref lib = call_on_raw (set_eeg_reference lib ''average'')"

text \<open>
  The statements in program order, each tagged with the step it performs. The tag is
  only recorded in the log of executed steps.
\<close>

datatype step = Load | Rename | MakeMontage | Drop | SetMontage | Reref

definition program :: "('r, 'm, 'e) mne \<Rightarrow> (step \<times> ('r, 'm, 'e) stmt) list" where
  "program lib =
     [(Load, stmt_load lib),
      (Rename, stmt_rename lib),
      (MakeMontage, stmt_make_montage lib),
      (Drop, stmt_drop lib),
      (SetMontage, stmt_set_montage lib),
      (Reref, stmt_reref lib)]"

text \<open>
  Running a statement list: statements run in order, and the first exception ends the
  run, since the script has no \<open>try\<close>. The outcome holds the globals as the run left
  them, the steps that were started, in order, and the exception that reached the
  caller.
\<close>

record ('r, 'm, 'e) outcome =
  final :: "('r, 'm) globals"
  executed :: "step list"
  raised :: "'e exn option"

fun exec :: "(step \<times> ('r, 'm, 'e) stmt) list \<Rightarrow> ('r, 'm) globals \<Rightarrow> ('r, 'm, 'e) outcome" where
  "exec [] g = \<lparr>final = g, executed = [], raised = None\<rparr>"
| "exec ((n, s) # rest) g =
     (case s g of
        (g', Some e) \<Rightarrow> \<lparr>final = g', executed = [n], raised = Some e\<rparr>
      | (g', None) \<Rightarrow> (let out = exec rest g' in out\<lparr>executed := n # executed out\<rparr>))"

definition start :: "('r, 'm) globals" where
  "start = \<lparr>raw = None, montage = None\<rparr>"

definition script :: "('r, 'm, 'e) mne \<Rightarrow> ('r, 'm, 'e) outcome" where
  "script lib = exec (program lib) start"

text \<open>
  The globals after a list of statements that all complete: the composition of their
  effects.
\<close>

definition state_after :: "(step \<times> ('r, 'm, 'e) stmt) list \<Rightarrow> ('r, 'm) globals \<Rightarrow> ('r, 'm) globals" where
  "state_after ss g = fold (\<lambda>(n, s) g'. fst (s g')) ss g"

text \<open>
  The four statements that mutate the recording, for a second pass over an object that
  is already loaded.
\<close>

definition mutating_steps :: "('r, 'm, 'e) mne \<Rightarrow> (step \<times> ('r, 'm, 'e) stmt) list" where
  "mutating_steps lib =
     [(Rename, stmt_rename lib),
      (Drop, stmt_drop lib),
      (SetMontage, stmt_set_montage lib),
      (Reref, stmt_reref lib)]"

subsection \<open>The library operations, from the specification\<close>

text \<open>
  The specification describes what each library call is expected to do. The definitions
  of this subsection follow its words; they are the contract the script relies on, not a
  translation of \<open>mne\<close>.
\<close>

text \<open>
  Modelled from the spec: the recording object of \<open>mne\<close>, absent from the repository.
  The data model of the specification, section 3: a recording is an ordered sequence of
  named channels, each with a label, a sample sequence and an assigned electrode
  position (none before a montage is set), and a reference scheme. \<open>'a\<close> is the type of
  a sample and \<open>'p\<close> the type of a 3D position; only the average reference computes
  with samples, and takes them to be real numbers.
\<close>

record ('a, 'p) channel =
  label :: string
  samples :: "'a list"
  position :: "'p option"

record ('a, 'p) recording =
  channels :: "('a, 'p) channel list"
  reference :: string

definition labels :: "('a, 'p) recording \<Rightarrow> string list" where
  "labels r = map label (channels r)"

text \<open>A montage maps electrode labels to positions; the entries keep their order.\<close>

type_synonym 'p montage_table = "(string \<times> 'p) list"

datatype lib_error =
    FileError string
  | UnknownMontage string
  | ChannelsNotFound "string list"
  | MontageUnmatched "string list"

text \<open>
  Modelled from the spec: \<open>mne.io.read_raw_edf\<close>, absent from the repository. "Read a
  named EDF file from the filesystem, materializing all samples into memory. Fails
  (propagated, unhandled) if the file is missing, malformed, or unreadable." The
  filesystem \<open>fs\<close> gives, for a file name, the recording a readable well-formed file
  of that name holds.
\<close>

definition spec_read_raw_edf ::
  "(string \<rightharpoonup> ('a, 'p) recording) \<Rightarrow> string \<Rightarrow> bool \<Rightarrow> lib_error + ('a, 'p) recording" where
  "spec_read_raw_edf fs name preload =
     (case fs name of None \<Rightarrow> Inl (FileError name) | Some r \<Rightarrow> Inr r)"

text \<open>
  Modelled from the spec: \<open>Raw.rename_channels\<close>, absent from the repository. "Apply a
  per-label transformation [...] [to] every channel name. Pure function over the label
  set; assumes labels are unique after stripping (unchecked)." The transformation is the
  argument \<open>f\<close>; no uniqueness check is made.
\<close>

definition spec_rename_channels ::
  "(string \<Rightarrow> string) \<Rightarrow> ('a, 'p) recording \<Rightarrow> ('a, 'p) recording \<times> lib_error option" where
  "spec_rename_channels f r =
     (r\<lparr>channels := map (\<lambda>c. c\<lparr>label := f (label c)\<rparr>) (channels r)\<rparr>, None)"

text \<open>
  Modelled from the spec: \<open>mne.channels.make_standard_montage\<close>, absent from the
  repository. "Request a named standard electrode layout ("easycap-M1") from a built-in
  catalog. Fails if the name is unknown."
\<close>

definition spec_make_standard_montage ::
  "(string \<rightharpoonup> 'p montage_table) \<Rightarrow> string \<Rightarrow> lib_error + 'p montage_table" where
  "spec_make_standard_montage catalog name =
     (case catalog name of None \<Rightarrow> Inl (UnknownMontage name) | Some m \<Rightarrow> Inr m)"

text \<open>
  Modelled from the spec: \<open>Raw.drop_channels\<close>, absent from the repository. "Remove
  two specifically named channels ("T9", "T10") from the recording. Fails if either name
  is absent (unhandled by this script)." The names are the argument \<open>names\<close>. The names
  that are absent are collected first; when there are none, every channel carrying one
  of the names is removed.
\<close>

definition spec_drop_channels ::
  "string list \<Rightarrow> ('a, 'p) recording \<Rightarrow> ('a, 'p) recording \<times> lib_error option" where
  "spec_drop_channels names r =
     (let missing = filter (\<lambda>n. n \<notin> set (labels r)) names in
      if missing \<noteq> [] then (r, Some (ChannelsNotFound missing))
      else (r\<lparr>channels := filter (\<lambda>c. label c \<notin> set names) (channels r)\<rparr>, None))"

text \<open>
  Modelled from the spec: "case-insensitive label matching". Letter case is that of
  \<open>str.lower\<close> on the ASCII letters, which is all an electrode label holds.
\<close>

definition lower_char :: "char \<Rightarrow> char" where
  "lower_char c =
     (if CHR ''A'' \<le> c \<and> c \<le> CHR ''Z'' then char_of (of_char c + (32 :: nat)) else c)"

definition lower :: "string \<Rightarrow> string" where
  "lower s = map lower_char s"

definition match_key :: "bool \<Rightarrow> string \<Rightarrow> string" where
  "match_key match_case s = (if match_case then s else lower s)"

text \<open>The position of the first montage entry whose label matches \<open>l\<close>.\<close>

fun montage_lookup :: "'p montage_table \<Rightarrow> bool \<Rightarrow> string \<Rightarrow> 'p option" where
  "montage_lookup [] match_case l = None"
| "montage_lookup ((n, p) # m) match_case l =
     (if match_key match_case n = match_key match_case l then Some p
      else montage_lookup m match_case l)"

text \<open>
  Modelled from the spec: \<open>Raw.set_montage\<close>, absent from the repository. "Bind the
  recording's remaining channel labels to 3D positions from the montage, using
  case-insensitive label matching. Fails if a channel cannot be matched (unhandled)."
  Matching ignores letter case when \<open>match_case\<close> is false, as the script asks; a
  channel takes the position of the first entry that matches it.
\<close>

definition spec_set_montage ::
  "'p montage_table \<Rightarrow> bool \<Rightarrow> ('a, 'p) recording \<Rightarrow> ('a, 'p) recording \<times> lib_error option" where
  "spec_set_montage m match_case r =
     (let unmatched = filter (\<lambda>l. montage_lookup m match_case l = None) (labels r) in
      if unmatched \<noteq> [] then (r, Some (MontageUnmatched unmatched))
      else (r\<lparr>channels :=
                 map (\<lambda>c. c\<lparr>position := montage_lookup m match_case (label c)\<rparr>) (channels r)\<rparr>,
            None))"

text \<open>
  Modelled from the spec: \<open>Raw.set_eeg_reference\<close>, absent from the repository.
  "Recompute each channel's signal relative to the average across all channels. Mutates
  all channel data in place." The arithmetic is the parameter \<open>rebase\<close>, which takes the
  data of all channels and the data of one channel to that channel's new data; the
  library computes it in floating point.
\<close>

definition spec_set_eeg_reference ::
  "('a list list \<Rightarrow> 'a list \<Rightarrow> 'a list) \<Rightarrow> string \<Rightarrow> ('a, 'p) recording
     \<Rightarrow> ('a, 'p) recording \<times> lib_error option" where
  "spec_set_eeg_reference rebase ref_channels r =
     (r\<lparr>channels :=
          map (\<lambda>c. c\<lparr>samples := rebase (map samples (channels r)) (samples c)\<rparr>) (channels r),
        reference := ref_channels\<rparr>,
      None)"

text \<open>
  Modelled from the spec: the arithmetic of the average reference, absent from the
  repository. "Average reference: a re-referencing scheme where each channel's signal is
  expressed relative to the mean signal across all channels." Samples are real numbers
  here. \<open>mean\<close> is the arithmetic mean of a list, \<open>mean_at r i\<close> the mean of the values
  of all channels of \<open>r\<close> at sample index \<open>i\<close>, and \<open>average_rebase\<close> gives a channel's
  new data: at every sample index its value minus the mean of all channels at that
  index.
\<close>

definition mean :: "real list \<Rightarrow> real" where
  "mean xs = sum_list xs / real (length xs)"

definition mean_at :: "(real, 'p) recording \<Rightarrow> nat \<Rightarrow> real" where
  "mean_at r i = mean (map (\<lambda>c. samples c ! i) (channels r))"

definition average_rebase :: "real list list \<Rightarrow> real list \<Rightarrow> real list" where
  "average_rebase rows row =
     map (\<lambda>i. row ! i - mean (map (\<lambda>x. x ! i) rows)) [0..<length row]"

text \<open>
  An implementation \<open>rebase\<close> of that arithmetic is within \<open>eps\<close> on a recording whose
  channels hold \<open>n\<close> samples each when it returns \<open>n\<close> samples for every channel, each
  at most \<open>eps\<close> away from the exact value.
\<close>

definition rebase_within ::
  "real \<Rightarrow> (real list list \<Rightarrow> real list \<Rightarrow> real list) \<Rightarrow> (real, 'p) recording \<Rightarrow> nat \<Rightarrow> bool" where
  "rebase_within eps rebase r n =
     (\<forall>c \<in> set (channels r).
        length (rebase (map samples (channels r)) (samples c)) = n
        \<and> (\<forall>j < n. \<bar>rebase (map samples (channels r)) (samples c) ! j
                        - (samples c ! j - mean_at r j)\<bar> \<le> eps))"

text \<open>The library of the specification, over a filesystem and a montage catalog.\<close>

definition mne_spec ::
  "(string \<rightharpoonup> ('a, 'p) recording) \<Rightarrow> (string \<rightharpoonup> 'p montage_table)
     \<Rightarrow> ('a list list \<Rightarrow> 'a list \<Rightarrow> 'a list)
     \<Rightarrow> (('a, 'p) recording, 'p montage_table, lib_error) mne" where
  "mne_spec fs catalog rebase =
     \<lparr>read_raw_edf = spec_read_raw_edf fs,
      rename_channels = spec_rename_channels,
      make_standard_montage = spec_make_standard_montage catalog,
      drop_channels = spec_drop_channels,
      set_montage = spec_set_montage,
      set_eeg_reference = spec_set_eeg_reference rebase\<rparr>"

subsection \<open>A small recording to run the script on\<close>

definition example_recording :: "(int, nat) recording" where
  "example_recording =
     \<lparr>channels =
        [\<lparr>label = ''Fp1.'', samples = [4, 8], position = None\<rparr>,
         \<lparr>label = ''T9..'', samples = [1, 0], position = None\<rparr>,
         \<lparr>label = ''Cz..'', samples = [3, 5], position = None\<rparr>,
         \<lparr>label = ''T10.'', samples = [2, 2], position = None\<rparr>],
      reference = ''none''\<rparr>"

definition example_fs :: "string \<rightharpoonup> (int, nat) recording" where
  "example_fs = [''S001R04.edf'' \<mapsto> example_recording]"

definition example_catalog :: "string \<rightharpoonup> nat montage_table" where
  "example_catalog =
     [''easycap-M1'' \<mapsto> [(''FP1'', 11), (''Cz'', 12), (''T9'', 13), (''T10'', 14)]]"

text \<open>Each channel relative to the first one: any function will do here.\<close>

definition example_rebase :: "int list list \<Rightarrow> int list \<Rightarrow> int list" where
  "example_rebase rows row = map2 (-) row (hd rows)"

definition example_lib ::
  "((int, nat) recording, nat montage_table, lib_error) mne" where
  "example_lib = mne_spec example_fs example_catalog example_rebase"

section \<open>Properties\<close>

subsection \<open>\<open>str.strip\<close>\<close>

lemma lstrip_dropWhile: "lstrip chars s = dropWhile (\<lambda>c. c \<in> set chars) s"
  by (induction s) simp_all

lemma rstrip_append_stripped:
  "set t \<subseteq> set chars \<Longrightarrow> rstrip chars (s @ t) = rstrip chars s"
proof -
  assume "set t \<subseteq> set chars"
  then have "dropWhile (\<lambda>c. c \<in> set chars) (rev t @ rev s) = dropWhile (\<lambda>c. c \<in> set chars) (rev s)"
    by (intro dropWhile_append2) auto
  then show ?thesis by (simp add: rstrip_def lstrip_dropWhile)
qed

lemma lstrip_append_stripped:
  "set t \<subseteq> set chars \<Longrightarrow> lstrip chars (t @ s) = lstrip chars s"
  unfolding lstrip_dropWhile by (intro dropWhile_append2) auto

lemma lstrip_fixed: "s = [] \<or> hd s \<notin> set chars \<Longrightarrow> lstrip chars s = s"
  by (cases s) auto

lemma lstrip_hd: "lstrip chars s = [] \<or> hd (lstrip chars s) \<notin> set chars"
  by (induction s) auto

lemma rstrip_fixed: "s = [] \<or> last s \<notin> set chars \<Longrightarrow> rstrip chars s = s"
  unfolding rstrip_def using lstrip_fixed[of "rev s" chars]
  by (cases "s = []") (simp_all add: hd_rev)

lemma rstrip_last: "rstrip chars s = [] \<or> last (rstrip chars s) \<notin> set chars"
  unfolding rstrip_def using lstrip_hd[of chars "rev s"]
  by (auto simp: last_rev)

lemma rstrip_snoc:
  "rstrip chars (s @ [c]) = (if c \<in> set chars then rstrip chars s else s @ [c])"
  by (simp add: rstrip_def)

lemma rstrip_Cons:
  "rstrip chars (c # s) = (if c \<in> set chars \<and> rstrip chars s = [] then [] else c # rstrip chars s)"
proof (induction s rule: rev_induct)
  case Nil
  show ?case by (simp add: rstrip_def)
next
  case (snoc x xs)
  have "rstrip chars (c # xs @ [x]) = rstrip chars ((c # xs) @ [x])" by simp
  also have "\<dots> = (if x \<in> set chars then rstrip chars (c # xs) else (c # xs) @ [x])"
    by (rule rstrip_snoc)
  finally show ?case using snoc by (simp add: rstrip_snoc)
qed

lemma strip_trailing_dots_rstrip: "strip_trailing_dots s = rstrip ''.'' s"
  by (induction s) (simp_all add: rstrip_Cons, simp add: rstrip_def)

lemma rstrip_hd:
  assumes "s \<noteq> []" "hd s \<notin> set chars"
  shows "rstrip chars s \<noteq> [] \<and> hd (rstrip chars s) = hd s"
  using assms by (cases s) (auto simp: rstrip_Cons)

lemma strip_hd: "strip chars s = [] \<or> hd (strip chars s) \<notin> set chars"
  unfolding strip_def using lstrip_hd[of chars s] rstrip_hd[of "lstrip chars s" chars]
  by (cases "lstrip chars s = []") (simp_all add: rstrip_def)

lemma strip_last: "strip chars s = [] \<or> last (strip chars s) \<notin> set chars"
  unfolding strip_def by (rule rstrip_last)

lemma strip_fixed:
  "s = [] \<or> (hd s \<notin> set chars \<and> last s \<notin> set chars) \<Longrightarrow> strip chars s = s"
  unfolding strip_def by (auto simp: lstrip_fixed rstrip_fixed)

lemma strip_idem: "strip chars (strip chars s) = strip chars s"
  using strip_hd[of chars s] strip_last[of chars s] by (intro strip_fixed) auto

lemma strip_pad:
  assumes "set a \<subseteq> set chars" "set b \<subseteq> set chars"
  shows "strip chars (a @ s @ b) = strip chars s"
proof (cases "lstrip chars s = []")
  case True
  then have "set s \<subseteq> set chars"
    by (induction s) (auto split: if_splits)
  then have "lstrip chars (a @ s @ b) = lstrip chars []"
    using assms lstrip_append_stripped[of "a @ s @ b" chars "[]"] by simp
  then show ?thesis using True by (simp add: strip_def)
next
  case False
  have "lstrip chars (s @ b) = lstrip chars s @ b"
    using False by (induction s) (auto split: if_splits)
  then show ?thesis
    using assms by (simp add: strip_def lstrip_append_stripped rstrip_append_stripped)
qed

lemma lstrip_Nil_iff: "lstrip chars s = [] \<longleftrightarrow> set s \<subseteq> set chars"
  by (induction s) auto

lemma rstrip_Nil_iff: "rstrip chars s = [] \<longleftrightarrow> set s \<subseteq> set chars"
  by (simp add: rstrip_def lstrip_Nil_iff)

lemma lstrip_subset_iff: "set (lstrip chars s) \<subseteq> set chars \<longleftrightarrow> set s \<subseteq> set chars"
  by (induction s) auto

lemma strip_Nil_iff: "strip chars s = [] \<longleftrightarrow> set s \<subseteq> set chars"
  by (simp add: strip_def rstrip_Nil_iff lstrip_subset_iff)

subsection \<open>The callable of the rename step\<close>

text \<open>
  Claim C1, as stated: for every label the transformation equals the function that
  strips trailing dots only and leaves leading dots in place. The label \<open>".Fp1"\<close>
  refutes it: \<open>strip\<close> removes the leading dot, the trailing-dot function keeps it.
\<close>

theorem rename_label_counterexample:
  "rename_label ''.Fp1'' = ''Fp1'' \<and> strip_trailing_dots ''.Fp1'' = ''.Fp1''
   \<and> rename_label ''.Fp1'' \<noteq> strip_trailing_dots ''.Fp1''"
  by (simp add: rename_label_def strip_def rstrip_def)

text \<open>
  Claim C1, amended: for every label the transformation equals the trailing-dot function
  applied to the label without its leading dots; it equals the trailing-dot function of
  the label itself exactly when the label does not start with a dot or consists of dots
  only.
\<close>

theorem rename_label_both_ends:
  "rename_label s = strip_trailing_dots (lstrip ''.'' s)
   \<and> (rename_label s = strip_trailing_dots s
        \<longleftrightarrow> \<not> starts_with_dot s \<or> set s \<subseteq> {CHR ''.''})"
proof (intro conjI iffI)
  show "rename_label s = strip_trailing_dots (lstrip ''.'' s)"
    by (simp add: rename_label_def strip_def strip_trailing_dots_rstrip)
next
  assume eq: "rename_label s = strip_trailing_dots s"
  show "\<not> starts_with_dot s \<or> set s \<subseteq> {CHR ''.''}"
  proof (rule ccontr)
    assume "\<not> (\<not> starts_with_dot s \<or> set s \<subseteq> {CHR ''.''})"
    then obtain t where s: "s = CHR ''.'' # t" and t: "\<not> set t \<subseteq> {CHR ''.''}"
      by (cases s) (auto simp: starts_with_dot_def)
    from t have "rstrip ''.'' t \<noteq> []" by (simp add: rstrip_Nil_iff)
    then have "hd (strip_trailing_dots s) = CHR ''.''" "strip_trailing_dots s \<noteq> []"
      by (simp_all add: s strip_trailing_dots_rstrip rstrip_Cons)
    moreover have "strip ''.'' s = [] \<or> hd (strip ''.'' s) \<notin> set ''.''"
      by (rule strip_hd)
    ultimately show False using eq by (auto simp: rename_label_def)
  qed
next
  assume "\<not> starts_with_dot s \<or> set s \<subseteq> {CHR ''.''}"
  then show "rename_label s = strip_trailing_dots s"
  proof
    assume "\<not> starts_with_dot s"
    then have "lstrip ''.'' s = s"
      by (intro lstrip_fixed) (auto simp: starts_with_dot_def)
    then show ?thesis
      by (simp add: rename_label_def strip_def strip_trailing_dots_rstrip)
  next
    assume "set s \<subseteq> {CHR ''.''}"
    then have "strip ''.'' s = []" "rstrip ''.'' s = []"
      by (simp_all add: strip_Nil_iff rstrip_Nil_iff)
    then show ?thesis
      by (simp add: rename_label_def strip_trailing_dots_rstrip)
  qed
qed

theorem rename_label_both_ends_witness:
  "\<not> starts_with_dot ''Fp1.'' \<and> rename_label ''Fp1.'' = strip_trailing_dots ''Fp1.''
   \<and> strip_trailing_dots ''Fp1.'' = ''Fp1''"
  using rename_label_both_ends [of "''Fp1.''"] by (simp add: starts_with_dot_def)

text \<open>
  Claim C9: the transformation also removes leading dots. A label made of leading dots, a
  core and trailing dots is mapped to what the core is mapped to, which is the core
  itself when the core has no dot at either end; in particular a label with no dot at
  either end is returned unchanged.
\<close>

theorem rename_label_strips_leading:
  "rename_label (replicate a CHR ''.'' @ core @ replicate b CHR ''.'') = rename_label core
   \<and> (\<not> starts_with_dot core \<and> \<not> ends_with_dot core \<longrightarrow>
        rename_label (replicate a CHR ''.'' @ core @ replicate b CHR ''.'') = core
        \<and> rename_label core = core)"
proof -
  have pad: "rename_label (replicate a CHR ''.'' @ core @ replicate b CHR ''.'') = rename_label core"
    unfolding rename_label_def by (intro strip_pad) auto
  have "rename_label core = core" if "\<not> starts_with_dot core" "\<not> ends_with_dot core"
    unfolding rename_label_def using that
    by (intro strip_fixed) (auto simp: starts_with_dot_def ends_with_dot_def)
  with pad show ?thesis by simp
qed

theorem rename_label_strips_leading_witness:
  "\<not> starts_with_dot ''Fp1'' \<and> \<not> ends_with_dot ''Fp1''
   \<and> rename_label ''..Fp1.'' = ''Fp1'' \<and> rename_label ''Fp1'' = ''Fp1''"
  using rename_label_strips_leading [of "Suc (Suc 0)" "''Fp1''" "Suc 0"]
  by (simp add: starts_with_dot_def ends_with_dot_def)

text \<open>
  Claim C10: the transformation is idempotent: applying it twice gives what applying it
  once gives.
\<close>

theorem rename_label_idempotent: "rename_label (rename_label s) = rename_label s"
  unfolding rename_label_def by (rule strip_idem)

subsection \<open>Sequencing and exceptions\<close>

lemma state_after_Cons: "state_after ((n, s) # ss) g = state_after ss (fst (s g))"
  by (simp add: state_after_def)

lemma exec_stops_at_first_exception:
  assumes "k < length prog"
    and "\<forall>i<k. snd (snd (prog ! i) (state_after (take i prog) g)) = None"
    and "snd (snd (prog ! k) (state_after (take k prog) g)) = Some e"
  shows "exec prog g =
           \<lparr>final = fst (snd (prog ! k) (state_after (take k prog) g)),
            executed = map fst (take (Suc k) prog),
            raised = Some e\<rparr>"
  using assms
proof (induction prog arbitrary: k g)
  case Nil
  then show ?case by simp
next
  case (Cons ns rest)
  obtain n s where ns: "ns = (n, s)" by (cases ns)
  show ?case
  proof (cases k)
    case 0
    with Cons.prems(3) have "snd (s g) = Some e"
      by (simp add: ns state_after_def)
    then show ?thesis
      by (cases "s g") (simp add: 0 ns state_after_def)
  next
    case (Suc j)
    from Cons.prems(2) have first: "snd (s g) = None"
      by (auto simp: Suc ns state_after_def dest: spec[of _ 0])
    have "j < length rest" using Cons.prems(1) Suc by simp
    moreover have "\<forall>i<j. snd (snd (rest ! i) (state_after (take i rest) (fst (s g)))) = None"
    proof (intro allI impI)
      fix i assume "i < j"
      then have "Suc i < k" by (simp add: Suc)
      with Cons.prems(2) have "snd (snd ((ns # rest) ! Suc i) (state_after (take (Suc i) (ns # rest)) g)) = None"
        by blast
      then show "snd (snd (rest ! i) (state_after (take i rest) (fst (s g)))) = None"
        by (simp add: ns state_after_Cons)
    qed
    moreover have "snd (snd (rest ! j) (state_after (take j rest) (fst (s g)))) = Some e"
      using Cons.prems(3) by (simp add: Suc ns state_after_Cons)
    ultimately have "exec rest (fst (s g)) =
           \<lparr>final = fst (snd (rest ! j) (state_after (take j rest) (fst (s g)))),
            executed = map fst (take (Suc j) rest),
            raised = Some e\<rparr>"
      by (rule Cons.IH)
    then show ?thesis using first
      by (cases "s g") (simp add: Suc ns state_after_Cons)
  qed
qed

lemma exec_completes:
  assumes "\<forall>i<length prog. snd (snd (prog ! i) (state_after (take i prog) g)) = None"
  shows "exec prog g = \<lparr>final = state_after prog g, executed = map fst prog, raised = None\<rparr>"
  using assms
proof (induction prog arbitrary: g)
  case Nil
  then show ?case by (simp add: state_after_def)
next
  case (Cons ns rest)
  obtain n s where ns: "ns = (n, s)" by (cases ns)
  from Cons.prems have first: "snd (s g) = None"
    by (auto simp: ns state_after_def dest: spec[of _ 0])
  have "\<forall>i<length rest. snd (snd (rest ! i) (state_after (take i rest) (fst (s g)))) = None"
  proof (intro allI impI)
    fix i assume "i < length rest"
    then have "Suc i < length (ns # rest)" by simp
    with Cons.prems have "snd (snd ((ns # rest) ! Suc i) (state_after (take (Suc i) (ns # rest)) g)) = None"
      by blast
    then show "snd (snd (rest ! i) (state_after (take i rest) (fst (s g)))) = None"
      by (simp add: ns state_after_Cons)
  qed
  then have "exec rest (fst (s g)) =
      \<lparr>final = state_after rest (fst (s g)), executed = map fst rest, raised = None\<rparr>"
    by (rule Cons.IH)
  then show ?case using first
    by (cases "s g") (simp add: ns state_after_Cons)
qed

text \<open>
  Claim C8: whatever the library does, if the statement at position \<open>k\<close> is the first to
  raise an exception \<open>e\<close>, the run of the script ends there. The caller receives \<open>e\<close>
  itself (no recovery, no alternate branch), the steps started are exactly the first
  \<open>k + 1\<close> in program order, each once (no retry, no later step), and the globals are
  those the failing statement left when started on the composed effects of the
  statements before it (nothing is rolled back).
\<close>

theorem script_failure_propagates:
  assumes "k < length (program lib)"
    and "\<forall>i<k. snd (snd (program lib ! i) (state_after (take i (program lib)) start)) = None"
    and "snd (snd (program lib ! k) (state_after (take k (program lib)) start)) = Some e"
  shows "script lib =
           \<lparr>final = fst (snd (program lib ! k) (state_after (take k (program lib)) start)),
            executed = take (Suc k) [Load, Rename, MakeMontage, Drop, SetMontage, Reref],
            raised = Some e\<rparr>"
proof -
  have "map fst (take (Suc k) (program lib)) =
          take (Suc k) [Load, Rename, MakeMontage, Drop, SetMontage, Reref]"
    by (simp add: program_def take_map [symmetric] del: take_Suc_Cons)
  then show ?thesis
    unfolding script_def using exec_stops_at_first_exception [OF assms] by simp
qed


theorem script_failure_propagates_witness:
  "script (mne_spec
       [''S001R04.edf'' \<mapsto>
          \<lparr>channels = [\<lparr>label = ''.Fp1.'', samples = [4 :: int], position = None\<rparr>],
           reference = ''none''\<rparr>]
       example_catalog example_rebase) =
     \<lparr>final =
        \<lparr>raw = Some \<lparr>channels = [\<lparr>label = ''Fp1'', samples = [4], position = None\<rparr>],
                     reference = ''none''\<rparr>,
         montage = Some [(''FP1'', 11), (''Cz'', 12), (''T9'', 13), (''T10'', 14)]\<rparr>,
      executed = [Load, Rename, MakeMontage, Drop],
      raised = Some (Raised (ChannelsNotFound [''T9'', ''T10'']))\<rparr>"
proof -
  let ?lib = "mne_spec
       [''S001R04.edf'' \<mapsto>
          \<lparr>channels = [\<lparr>label = ''.Fp1.'', samples = [4 :: int], position = None\<rparr>],
           reference = ''none''\<rparr>]
       example_catalog example_rebase"
  have run: "state_after (take 3 (program ?lib)) start =
      \<lparr>raw = Some \<lparr>channels = [\<lparr>label = ''Fp1'', samples = [4], position = None\<rparr>],
                     reference = ''none''\<rparr>,
         montage = Some [(''FP1'', 11), (''Cz'', 12), (''T9'', 13), (''T10'', 14)]\<rparr>"
    by (simp add: program_def state_after_def start_def stmt_load_def stmt_rename_def
        stmt_make_montage_def call_on_raw_def mne_spec_def spec_read_raw_edf_def
        spec_rename_channels_def spec_make_standard_montage_def example_catalog_def
        rename_label_def strip_def rstrip_def)
  have len: "3 < length (program ?lib)" by (simp add: program_def)
  have before: "\<forall>i<3. snd (snd (program ?lib ! i) (state_after (take i (program ?lib)) start)) = None"
    by (simp add: less_Suc_eq eval_nat_numeral all_conj_distrib
        program_def state_after_def start_def stmt_load_def stmt_rename_def
        stmt_make_montage_def call_on_raw_def mne_spec_def spec_read_raw_edf_def
        spec_rename_channels_def spec_make_standard_montage_def example_catalog_def)
  have at: "snd (program ?lib ! 3) (state_after (take 3 (program ?lib)) start) =
      (state_after (take 3 (program ?lib)) start, Some (Raised (ChannelsNotFound [''T9'', ''T10''])))"
    unfolding run
    by (simp add: program_def stmt_drop_def call_on_raw_def mne_spec_def
        spec_drop_channels_def labels_def)
  from at have "snd (snd (program ?lib ! 3) (state_after (take 3 (program ?lib)) start)) =
      Some (Raised (ChannelsNotFound [''T9'', ''T10'']))" by simp
  from script_failure_propagates [OF len before this] show ?thesis
    by (simp add: at [unfolded run] run)
qed

subsection \<open>The steps over the library of the specification\<close>

lemma stmt_rename_spec:
  "raw g = Some r \<Longrightarrow>
     stmt_rename (mne_spec fs catalog rebase) g =
       (g\<lparr>raw := Some (fst (spec_rename_channels rename_label r))\<rparr>, None)"
  by (simp add: stmt_rename_def call_on_raw_def mne_spec_def spec_rename_channels_def)

lemma stmt_drop_spec:
  "raw g = Some r \<Longrightarrow>
     stmt_drop (mne_spec fs catalog rebase) g =
       (g\<lparr>raw := Some (fst (spec_drop_channels [''T9'', ''T10''] r))\<rparr>,
        map_option Raised (snd (spec_drop_channels [''T9'', ''T10''] r)))"
  by (simp add: stmt_drop_def call_on_raw_def mne_spec_def split: prod.split)

lemma stmt_set_montage_spec:
  "raw g = Some r \<Longrightarrow> montage g = Some m \<Longrightarrow>
     stmt_set_montage (mne_spec fs catalog rebase) g =
       (g\<lparr>raw := Some (fst (spec_set_montage m False r))\<rparr>,
        map_option Raised (snd (spec_set_montage m False r)))"
  by (simp add: stmt_set_montage_def call_on_raw_def mne_spec_def split: prod.split)

lemma labels_rename: "labels (fst (spec_rename_channels f r)) = map f (labels r)"
  by (simp add: spec_rename_channels_def labels_def comp_def)

lemma rename_label_no_trailing_dot: "\<not> ends_with_dot (rename_label s)"
  using strip_last [of "''.''" s] by (auto simp: ends_with_dot_def rename_label_def)

text \<open>
  Claim C4: whatever the labels of the loaded recording are, the rename step completes,
  every label becomes its image under the callable, and afterwards no channel name ends
  with a dot.
\<close>

theorem rename_step_no_trailing_dot:
  assumes "raw g = Some r"
  shows "snd (stmt_rename (mne_spec fs catalog rebase) g) = None
    \<and> (let r' = the (raw (fst (stmt_rename (mne_spec fs catalog rebase) g))) in
         labels r' = map rename_label (labels r)
         \<and> (\<forall>l \<in> set (labels r'). \<not> ends_with_dot l))"
  using assms
  by (auto simp: stmt_rename_spec labels_rename rename_label_no_trailing_dot)

theorem rename_step_no_trailing_dot_witness:
  "snd (stmt_rename example_lib \<lparr>raw = Some example_recording, montage = None\<rparr>) = None
   \<and> labels (the (raw (fst (stmt_rename example_lib
          \<lparr>raw = Some example_recording, montage = None\<rparr>))))
       = [''Fp1'', ''T9'', ''Cz'', ''T10'']
   \<and> \<not> ends_with_dot ''Fp1'' \<and> \<not> ends_with_dot ''T9''
   \<and> \<not> ends_with_dot ''Cz'' \<and> \<not> ends_with_dot ''T10''"
  using rename_step_no_trailing_dot
    [of "\<lparr>raw = Some example_recording, montage = None\<rparr>" example_recording
        example_fs example_catalog example_rebase]
  by (simp add: example_lib_def Let_def labels_def example_recording_def
      stmt_rename_def call_on_raw_def mne_spec_def spec_rename_channels_def
      rename_label_def strip_def rstrip_def)

lemma drop_present:
  assumes "''T9'' \<in> set (labels r)" "''T10'' \<in> set (labels r)"
  shows "spec_drop_channels [''T9'', ''T10''] r =
     (r\<lparr>channels := filter (\<lambda>c. label c \<noteq> ''T9'' \<and> label c \<noteq> ''T10'') (channels r)\<rparr>, None)"
  using assms by (simp add: spec_drop_channels_def)

lemma drop_absent:
  assumes "''T9'' \<notin> set (labels r) \<or> ''T10'' \<notin> set (labels r)"
  shows "spec_drop_channels [''T9'', ''T10''] r =
     (r, Some (ChannelsNotFound (filter (\<lambda>n. n \<notin> set (labels r)) [''T9'', ''T10''])))"
  using assms by (auto simp: spec_drop_channels_def Let_def)

lemma labels_filter:
  "labels (r\<lparr>channels := filter (\<lambda>c. P (label c)) (channels r)\<rparr>) = filter P (labels r)"
  by (simp add: labels_def filter_map comp_def)

lemma card_remove_two:
  assumes "finite S" "a \<in> S" "b \<in> S" "a \<noteq> b"
  shows "card (S - {a, b}) + 2 = card S"
proof -
  have "Suc (card (S - {a})) = card S"
    using assms(1,2) by (rule card_Suc_Diff1)
  moreover have "Suc (card ((S - {a}) - {b})) = card (S - {a})"
    using assms by (intro card_Suc_Diff1) auto
  moreover have "(S - {a}) - {b} = S - {a, b}" by auto
  ultimately show ?thesis by simp
qed

lemma length_filter_two:
  assumes "distinct xs" "a \<in> set xs" "b \<in> set xs" "a \<noteq> b"
  shows "length (filter (\<lambda>x. x \<noteq> a \<and> x \<noteq> b) xs) + 2 = length xs"
proof -
  have "set (filter (\<lambda>x. x \<noteq> a \<and> x \<noteq> b) xs) = set xs - {a, b}" by auto
  moreover have "distinct (filter (\<lambda>x. x \<noteq> a \<and> x \<noteq> b) xs)" using assms(1) by simp
  ultimately have "length (filter (\<lambda>x. x \<noteq> a \<and> x \<noteq> b) xs) = card (set xs - {a, b})"
    using distinct_card by metis
  moreover have "card (set xs - {a, b}) + 2 = card (set xs)"
    using assms(2-4) by (intro card_remove_two) auto
  moreover have "card (set xs) = length xs" using assms(1) by (rule distinct_card)
  ultimately show ?thesis by simp
qed


text \<open>
  Claim C2: when the recording has a channel named T9 and one named T10, the drop step
  completes; afterwards neither name is in the channel set, the channel set is the old
  one without these two names and so has exactly two elements fewer, and the channels
  kept are all the others, in their order. When the labels are unique the channel
  sequence is shorter by exactly two.
\<close>

theorem drop_step_removes_T9_T10:
  assumes "raw g = Some r" and "''T9'' \<in> set (labels r)" and "''T10'' \<in> set (labels r)"
  shows "snd (stmt_drop (mne_spec fs catalog rebase) g) = None
    \<and> (let r' = the (raw (fst (stmt_drop (mne_spec fs catalog rebase) g))) in
         ''T9'' \<notin> set (labels r') \<and> ''T10'' \<notin> set (labels r')
         \<and> card (set (labels r')) + 2 = card (set (labels r))
         \<and> set (labels r') = set (labels r) - {''T9'', ''T10''}
         \<and> channels r' = filter (\<lambda>c. label c \<noteq> ''T9'' \<and> label c \<noteq> ''T10'') (channels r)
         \<and> (distinct (labels r) \<longrightarrow> length (channels r') + 2 = length (channels r)))"
proof -
  let ?r' = "r\<lparr>channels := filter (\<lambda>c. label c \<noteq> ''T9'' \<and> label c \<noteq> ''T10'') (channels r)\<rparr>"
  have step: "stmt_drop (mne_spec fs catalog rebase) g = (g\<lparr>raw := Some ?r'\<rparr>, None)"
    using assms by (simp add: stmt_drop_spec drop_present)
  have lab: "labels ?r' = filter (\<lambda>l. l \<noteq> ''T9'' \<and> l \<noteq> ''T10'') (labels r)"
    by (rule labels_filter)
  then have sets: "set (labels ?r') = set (labels r) - {''T9'', ''T10''}" by auto
  have "card (set (labels r) - {''T9'', ''T10''}) + 2 = card (set (labels r))"
    using assms(2,3) by (intro card_remove_two) auto
  then have card: "card (set (labels ?r')) + 2 = card (set (labels r))"
    by (simp only: sets)
  have len: "length (channels ?r') + 2 = length (channels r)" if "distinct (labels r)"
  proof -
    have "length (filter (\<lambda>l. l \<noteq> ''T9'' \<and> l \<noteq> ''T10'') (labels r)) + 2 = length (labels r)"
      using that assms(2,3) by (intro length_filter_two) auto
    then show ?thesis unfolding lab [symmetric] by (simp add: labels_def)
  qed
  have "''T9'' \<notin> set (labels ?r')" "''T10'' \<notin> set (labels ?r')"
    using sets by auto
  with step sets card len show ?thesis by (simp add: Let_def)
qed

theorem drop_step_removes_T9_T10_witness:
  "labels (fst (spec_rename_channels rename_label example_recording))
      = [''Fp1'', ''T9'', ''Cz'', ''T10'']
   \<and> snd (stmt_drop example_lib
        \<lparr>raw = Some (fst (spec_rename_channels rename_label example_recording)),
         montage = None\<rparr>) = None
   \<and> labels (the (raw (fst (stmt_drop example_lib
        \<lparr>raw = Some (fst (spec_rename_channels rename_label example_recording)),
         montage = None\<rparr>)))) = [''Fp1'', ''Cz'']"
proof -
  let ?r = "fst (spec_rename_channels rename_label example_recording)"
  have lab: "labels ?r = [''Fp1'', ''T9'', ''Cz'', ''T10'']"
    by (simp add: labels_def spec_rename_channels_def example_recording_def
        rename_label_def strip_def rstrip_def)
  have a: "raw \<lparr>raw = Some ?r, montage = None :: nat montage_table option\<rparr> = Some ?r" by simp
  have b: "''T9'' \<in> set (labels ?r)" by (simp add: lab)
  have c: "''T10'' \<in> set (labels ?r)" by (simp add: lab)
  show ?thesis
    using drop_step_removes_T9_T10 [OF a b c, of example_fs example_catalog example_rebase]
    by (simp add: example_lib_def stmt_drop_def call_on_raw_def mne_spec_def
        spec_drop_channels_def labels_def spec_rename_channels_def example_recording_def
        rename_label_def strip_def rstrip_def Let_def)
qed

text \<open>
  Claim C5: the drop step completes exactly when both T9 and T10 name a channel. When
  either is absent it raises, naming the absent ones, and the exception ends the run:
  whatever statements follow, none is started, and the exception reaches the caller.
\<close>

theorem drop_step_fails_iff_absent:
  assumes "raw g = Some r"
  shows "(snd (stmt_drop (mne_spec fs catalog rebase) g) = None
            \<longleftrightarrow> ''T9'' \<in> set (labels r) \<and> ''T10'' \<in> set (labels r))
    \<and> (''T9'' \<notin> set (labels r) \<or> ''T10'' \<notin> set (labels r) \<longrightarrow>
          exec ((Drop, stmt_drop (mne_spec fs catalog rebase)) # rest) g =
            \<lparr>final = g, executed = [Drop],
             raised = Some (Raised (ChannelsNotFound
                        (filter (\<lambda>n. n \<notin> set (labels r)) [''T9'', ''T10''])))\<rparr>)"
proof (cases "''T9'' \<in> set (labels r) \<and> ''T10'' \<in> set (labels r)")
  case True
  then show ?thesis using assms by (simp add: stmt_drop_spec drop_present)
next
  case False
  then have absent: "''T9'' \<notin> set (labels r) \<or> ''T10'' \<notin> set (labels r)" by simp
  have same: "g\<lparr>raw := Some r\<rparr> = g" using assms by simp
  have "stmt_drop (mne_spec fs catalog rebase) g =
      (g, Some (Raised (ChannelsNotFound (filter (\<lambda>n. n \<notin> set (labels r)) [''T9'', ''T10'']))))"
    using assms by (simp add: stmt_drop_spec drop_absent [OF absent] same)
  then show ?thesis using False by simp
qed

theorem drop_step_fails_iff_absent_witness:
  "''T10'' \<notin> set (labels \<lparr>channels = [\<lparr>label = ''T9'', samples = [1 :: int], position = None :: nat option\<rparr>],
                             reference = ''none''\<rparr>)
   \<and> exec ((Drop, stmt_drop example_lib) # [(Reref, stmt_reref example_lib)])
        \<lparr>raw = Some \<lparr>channels = [\<lparr>label = ''T9'', samples = [1], position = None\<rparr>],
                      reference = ''none''\<rparr>,
         montage = None\<rparr> =
       \<lparr>final = \<lparr>raw = Some \<lparr>channels = [\<lparr>label = ''T9'', samples = [1], position = None\<rparr>],
                               reference = ''none''\<rparr>,
                  montage = None\<rparr>,
        executed = [Drop],
        raised = Some (Raised (ChannelsNotFound [''T10'']))\<rparr>"
  using drop_step_fails_iff_absent
    [of "\<lparr>raw = Some \<lparr>channels = [\<lparr>label = ''T9'', samples = [1 :: int], position = None :: nat option\<rparr>],
                      reference = ''none''\<rparr>,
         montage = None :: nat montage_table option\<rparr>"
        "\<lparr>channels = [\<lparr>label = ''T9'', samples = [1 :: int], position = None :: nat option\<rparr>],
                      reference = ''none''\<rparr>"
        example_fs example_catalog example_rebase "[(Reref, stmt_reref example_lib)]"]
  by (simp add: labels_def example_lib_def)

subsection \<open>Montage assignment\<close>

lemma montage_lookup_None_iff:
  "montage_lookup m mc l = None \<longleftrightarrow> (\<forall>(n, p) \<in> set m. match_key mc n \<noteq> match_key mc l)"
  by (induction m) (auto split: if_splits)

lemma montage_lookup_Some:
  "montage_lookup m mc l = Some p \<Longrightarrow> \<exists>n. (n, p) \<in> set m \<and> match_key mc n = match_key mc l"
  by (induction m) (auto split: if_splits)

lemma montage_lookup_unique:
  assumes "distinct (map (match_key mc \<circ> fst) m)" "(n, p) \<in> set m"
    and "match_key mc n = match_key mc l"
  shows "montage_lookup m mc l = Some p"
  using assms
proof (induction m)
  case Nil
  then show ?case by simp
next
  case (Cons a m)
  obtain n' p' where a: "a = (n', p')" by (cases a)
  show ?case
  proof (cases "match_key mc n' = match_key mc l")
    case True
    have "(n, p) \<notin> set m"
    proof
      assume "(n, p) \<in> set m"
      then have "match_key mc n \<in> (match_key mc \<circ> fst) ` set m" by force
      with Cons.prems(1,3) True show False by (simp add: a)
    qed
    with Cons.prems(2) have "p' = p" by (simp add: a)
    with True show ?thesis by (simp add: a)
  next
    case False
    with Cons.prems have "(n, p) \<in> set m" by (auto simp: a)
    with Cons False show ?thesis by (simp add: a)
  qed
qed

lemma labels_set_montage: "labels (fst (spec_set_montage m mc r)) = labels r"
  by (simp add: spec_set_montage_def Let_def labels_def comp_def)

lemma labels_set_eeg_reference: "labels (fst (spec_set_eeg_reference rb ref r)) = labels r"
  by (simp add: spec_set_eeg_reference_def labels_def comp_def)

lemma set_montage_ok_iff:
  "snd (spec_set_montage m mc r) = None
     \<longleftrightarrow> (\<forall>c \<in> set (channels r). \<exists>(n, p) \<in> set m. match_key mc n = match_key mc (label c))"
  by (auto simp: spec_set_montage_def Let_def labels_def filter_empty_conv
      montage_lookup_None_iff)

lemma set_montage_ok_lookup:
  assumes "snd (spec_set_montage m mc r) = None" "c \<in> set (channels r)"
  shows "montage_lookup m mc (label c) \<noteq> None"
  using assms
  by (auto simp: spec_set_montage_def Let_def labels_def filter_empty_conv split: if_splits)

lemma set_montage_fail:
  assumes "snd (spec_set_montage m mc r) \<noteq> None"
  shows "spec_set_montage m mc r =
     (r, Some (MontageUnmatched
        (filter (\<lambda>l. \<forall>(n, p) \<in> set m. match_key mc n \<noteq> match_key mc l) (labels r))))"
  using assms by (simp add: spec_set_montage_def Let_def montage_lookup_None_iff split: if_splits)

lemma set_montage_ok:
  assumes "snd (spec_set_montage m mc r) = None"
  shows "channels (fst (spec_set_montage m mc r)) =
     map (\<lambda>c. c\<lparr>position := montage_lookup m mc (label c)\<rparr>) (channels r)"
  using assms by (simp add: spec_set_montage_def Let_def split: if_splits)

text \<open>
  Claim C6: the montage step matches labels without regard to letter case. It completes
  exactly when every channel has a montage entry whose label equals its own up to
  letter case; otherwise it raises, naming the unmatched channels, and the exception
  ends the run. When it completes, the labels are unchanged and every channel has a
  position, that of a montage entry matching its label up to letter case; when no two
  montage entries match each other up to letter case, a channel has the position of
  every entry that matches it, which is then the only one.
\<close>

theorem set_montage_step_case_insensitive:
  assumes "raw g = Some r" and "montage g = Some m"
  shows "(snd (stmt_set_montage (mne_spec fs catalog rebase) g) = None
            \<longleftrightarrow> (\<forall>c \<in> set (channels r). \<exists>(n, p) \<in> set m. lower n = lower (label c)))
    \<and> (snd (stmt_set_montage (mne_spec fs catalog rebase) g) \<noteq> None \<longrightarrow>
          exec ((SetMontage, stmt_set_montage (mne_spec fs catalog rebase)) # rest) g =
            \<lparr>final = g, executed = [SetMontage],
             raised = Some (Raised (MontageUnmatched
                        (filter (\<lambda>l. \<forall>(n, p) \<in> set m. lower n \<noteq> lower l) (labels r))))\<rparr>)
    \<and> (snd (stmt_set_montage (mne_spec fs catalog rebase) g) = None \<longrightarrow>
         (let r' = the (raw (fst (stmt_set_montage (mne_spec fs catalog rebase) g))) in
            labels r' = labels r
            \<and> (\<forall>c \<in> set (channels r').
                  \<exists>(n, p) \<in> set m. lower n = lower (label c) \<and> position c = Some p)
            \<and> (distinct (map (lower \<circ> fst) m) \<longrightarrow>
                 (\<forall>c \<in> set (channels r').
                    \<forall>(n, p) \<in> set m. lower n = lower (label c) \<longrightarrow> position c = Some p))))"
proof -
  let ?lib = "mne_spec fs catalog rebase"
  have key: "match_key False = lower" by (rule ext) (simp add: match_key_def)
  have step: "stmt_set_montage ?lib g =
       (g\<lparr>raw := Some (fst (spec_set_montage m False r))\<rparr>,
        map_option Raised (snd (spec_set_montage m False r)))"
    using assms by (rule stmt_set_montage_spec)
  have same: "g\<lparr>raw := Some r\<rparr> = g" using assms(1) by simp
  have ok: "snd (stmt_set_montage ?lib g) = None
            \<longleftrightarrow> (\<forall>c \<in> set (channels r). \<exists>(n, p) \<in> set m. lower n = lower (label c))"
    using set_montage_ok_iff [of m False r] by (simp add: step key)
  have fail: "exec ((SetMontage, stmt_set_montage ?lib) # rest) g =
            \<lparr>final = g, executed = [SetMontage],
             raised = Some (Raised (MontageUnmatched
                        (filter (\<lambda>l. \<forall>(n, p) \<in> set m. lower n \<noteq> lower l) (labels r))))\<rparr>"
    if "snd (stmt_set_montage ?lib g) \<noteq> None"
  proof -
    from that have "snd (spec_set_montage m False r) \<noteq> None" by (simp add: step)
    from set_montage_fail [OF this] show ?thesis by (simp add: step same key)
  qed
  have compl: "let r' = the (raw (fst (stmt_set_montage ?lib g))) in
            labels r' = labels r
            \<and> (\<forall>c \<in> set (channels r').
                  \<exists>(n, p) \<in> set m. lower n = lower (label c) \<and> position c = Some p)
            \<and> (distinct (map (lower \<circ> fst) m) \<longrightarrow>
                 (\<forall>c \<in> set (channels r').
                    \<forall>(n, p) \<in> set m. lower n = lower (label c) \<longrightarrow> position c = Some p))"
    if "snd (stmt_set_montage ?lib g) = None"
  proof -
    from that have none: "snd (spec_set_montage m False r) = None" by (simp add: step)
    let ?r' = "fst (spec_set_montage m False r)"
    have chans: "channels ?r' = map (\<lambda>c. c\<lparr>position := montage_lookup m False (label c)\<rparr>) (channels r)"
      using none by (rule set_montage_ok)
    have found: "\<exists>(n, p) \<in> set m. lower n = lower (label c) \<and> position c = Some p"
      if "c \<in> set (channels ?r')" for c
    proof -
      from that chans obtain c0 where c0: "c0 \<in> set (channels r)"
        and c: "c = c0\<lparr>position := montage_lookup m False (label c0)\<rparr>" by auto
      from none c0 have "montage_lookup m False (label c0) \<noteq> None"
        by (rule set_montage_ok_lookup)
      then obtain p where p: "montage_lookup m False (label c0) = Some p" by auto
      from montage_lookup_Some [OF p] obtain n where "(n, p) \<in> set m" "lower n = lower (label c0)"
        by (auto simp: key)
      then show ?thesis using c p by auto
    qed
    have exact: "position c = Some p"
      if "distinct (map (lower \<circ> fst) m)" "c \<in> set (channels ?r')" "(n, p) \<in> set m"
        "lower n = lower (label c)" for c n p
    proof -
      from that(2) chans obtain c0 where
        c: "c = c0\<lparr>position := montage_lookup m False (label c0)\<rparr>" by auto
      have "montage_lookup m False (label c0) = Some p"
        using that(1,3,4) c by (intro montage_lookup_unique [of False m n]) (simp_all add: key)
      then show ?thesis using c by simp
    qed
    have "the (raw (fst (stmt_set_montage ?lib g))) = ?r'" by (simp add: step)
    moreover have "labels ?r' = labels r" by (rule labels_set_montage)
    ultimately show ?thesis using found exact by (auto simp: Let_def)
  qed
  from ok fail compl show ?thesis by blast
qed


theorem set_montage_step_case_insensitive_witness:
  "snd (stmt_set_montage example_lib
          \<lparr>raw = Some \<lparr>channels = [\<lparr>label = ''Fp1'', samples = [4, 8], position = None\<rparr>,
                                    \<lparr>label = ''Cz'', samples = [3, 5], position = None\<rparr>],
                        reference = ''none''\<rparr>,
           montage = Some [(''FP1'', 11), (''Cz'', 12), (''T9'', 13), (''T10'', 14)]\<rparr>) = None
   \<and> map (\<lambda>c. (label c, position c))
        (channels (the (raw (fst (stmt_set_montage example_lib
          \<lparr>raw = Some \<lparr>channels = [\<lparr>label = ''Fp1'', samples = [4, 8], position = None\<rparr>,
                                    \<lparr>label = ''Cz'', samples = [3, 5], position = None\<rparr>],
                        reference = ''none''\<rparr>,
           montage = Some [(''FP1'', 11), (''Cz'', 12), (''T9'', 13), (''T10'', 14)]\<rparr>)))))
      = [(''Fp1'', Some 11), (''Cz'', Some 12)]"
proof -
  have low: "lower ''FP1'' = ''fp1''" "lower ''Fp1'' = ''fp1''" "lower ''Cz'' = ''cz''"
    "lower ''T9'' = ''t9''" "lower ''T10'' = ''t10''"
    by code_simp+
  show ?thesis
    using set_montage_step_case_insensitive
      [of "\<lparr>raw = Some \<lparr>channels = [\<lparr>label = ''Fp1'', samples = [4, 8], position = None\<rparr>,
                                    \<lparr>label = ''Cz'', samples = [3, 5], position = None\<rparr>],
                        reference = ''none''\<rparr>,
           montage = Some [(''FP1'', 11), (''Cz'', 12), (''T9'', 13), (''T10'', 14)]\<rparr>"
          "\<lparr>channels = [\<lparr>label = ''Fp1'', samples = [4, 8], position = None\<rparr>,
                                    \<lparr>label = ''Cz'', samples = [3, 5], position = None\<rparr>],
                        reference = ''none''\<rparr>"
          "[(''FP1'', 11), (''Cz'', 12), (''T9'', 13), (''T10'', 14)]"
          example_fs example_catalog example_rebase "[]"]
    by (simp add: example_lib_def stmt_set_montage_def call_on_raw_def mne_spec_def
        spec_set_montage_def labels_def match_key_def low Let_def)
qed

subsection \<open>A second pass over the transformed recording\<close>

lemma rename_fixed_labels:
  assumes "\<forall>l \<in> set (labels r). f l = l"
  shows "spec_rename_channels f r = (r, None)"
proof -
  have "map (\<lambda>c. c\<lparr>label := f (label c)\<rparr>) (channels r) = map (\<lambda>c. c) (channels r)"
    using assms by (intro map_cong) (auto simp: labels_def)
  then show ?thesis by (simp add: spec_rename_channels_def)
qed

lemma script_completed:
  assumes "raised (script (mne_spec fs catalog rebase)) = None"
  shows "\<exists>r m. final (script (mne_spec fs catalog rebase)) = \<lparr>raw = Some r, montage = Some m\<rparr>
           \<and> catalog ''easycap-M1'' = Some m
           \<and> (\<forall>l \<in> set (labels r). rename_label l = l)
           \<and> ''T9'' \<notin> set (labels r) \<and> ''T10'' \<notin> set (labels r)"
proof -
  let ?lib = "mne_spec fs catalog rebase"
  obtain r0 where fs: "fs ''S001R04.edf'' = Some r0"
    using assms
    by (cases "fs ''S001R04.edf''")
       (simp_all add: script_def program_def stmt_load_def mne_spec_def spec_read_raw_edf_def)
  define r1 where "r1 = fst (spec_rename_channels rename_label r0)"
  have s1: "stmt_load ?lib start = (\<lparr>raw = Some r0, montage = None\<rparr>, None)"
    by (simp add: stmt_load_def mne_spec_def spec_read_raw_edf_def fs start_def)
  have s2: "stmt_rename ?lib \<lparr>raw = Some r0, montage = None\<rparr> = (\<lparr>raw = Some r1, montage = None\<rparr>, None)"
    by (simp add: stmt_rename_spec r1_def)
  have run2: "script ?lib =
      (let out = exec (drop 2 (program ?lib)) \<lparr>raw = Some r1, montage = None\<rparr>
       in out\<lparr>executed := Load # Rename # executed out\<rparr>)"
    by (simp add: script_def program_def s1 s2 Let_def)
  obtain m where cat: "catalog ''easycap-M1'' = Some m"
    using assms unfolding run2
    by (cases "catalog ''easycap-M1''")
       (simp_all add: program_def stmt_make_montage_def mne_spec_def
          spec_make_standard_montage_def Let_def)
  have s3: "stmt_make_montage ?lib \<lparr>raw = Some r1, montage = None\<rparr> =
      (\<lparr>raw = Some r1, montage = Some m\<rparr>, None)"
    by (simp add: stmt_make_montage_def mne_spec_def spec_make_standard_montage_def cat)
  have run3: "script ?lib =
      (let out = exec (drop 3 (program ?lib)) \<lparr>raw = Some r1, montage = Some m\<rparr>
       in out\<lparr>executed := Load # Rename # MakeMontage # executed out\<rparr>)"
    unfolding run2 by (simp add: program_def s3 Let_def)
  have present: "''T9'' \<in> set (labels r1) \<and> ''T10'' \<in> set (labels r1)"
  proof (rule ccontr)
    assume "\<not> ?thesis"
    then have "''T9'' \<notin> set (labels r1) \<or> ''T10'' \<notin> set (labels r1)" by simp
    from drop_absent [OF this] have "raised (script ?lib) \<noteq> None"
      unfolding run3 by (simp add: program_def stmt_drop_spec Let_def)
    with assms show False by simp
  qed
  define r2 where "r2 = r1\<lparr>channels := filter (\<lambda>c. label c \<noteq> ''T9'' \<and> label c \<noteq> ''T10'') (channels r1)\<rparr>"
  have s4: "stmt_drop ?lib \<lparr>raw = Some r1, montage = Some m\<rparr> = (\<lparr>raw = Some r2, montage = Some m\<rparr>, None)"
    using present by (simp add: stmt_drop_spec drop_present r2_def)
  have run4: "script ?lib =
      (let out = exec (drop 4 (program ?lib)) \<lparr>raw = Some r2, montage = Some m\<rparr>
       in out\<lparr>executed := Load # Rename # MakeMontage # Drop # executed out\<rparr>)"
    unfolding run3 by (simp add: program_def s4 Let_def)
  define r3 where "r3 = fst (spec_set_montage m False r2)"
  have matched: "snd (spec_set_montage m False r2) = None"
  proof (rule ccontr)
    assume "\<not> ?thesis"
    then have "raised (script ?lib) \<noteq> None"
      unfolding run4 by (auto simp: program_def stmt_set_montage_spec Let_def)
    with assms show False by simp
  qed
  have s5: "stmt_set_montage ?lib \<lparr>raw = Some r2, montage = Some m\<rparr> =
      (\<lparr>raw = Some r3, montage = Some m\<rparr>, None)"
    by (simp add: stmt_set_montage_spec matched r3_def)
  define r4 where "r4 = fst (spec_set_eeg_reference rebase ''average'' r3)"
  have s6: "stmt_reref ?lib \<lparr>raw = Some r3, montage = Some m\<rparr> =
      (\<lparr>raw = Some r4, montage = Some m\<rparr>, None)"
    by (simp add: stmt_reref_def call_on_raw_def mne_spec_def r4_def spec_set_eeg_reference_def)
  have fin: "final (script ?lib) = \<lparr>raw = Some r4, montage = Some m\<rparr>"
    unfolding run4 by (simp add: program_def s5 s6 Let_def)
  have "labels r4 = labels r2"
    by (simp add: r4_def r3_def labels_set_eeg_reference labels_set_montage)
  also have "\<dots> = filter (\<lambda>l. l \<noteq> ''T9'' \<and> l \<noteq> ''T10'') (labels r1)"
    unfolding r2_def by (rule labels_filter)
  also have "labels r1 = map rename_label (labels r0)"
    unfolding r1_def by (rule labels_rename)
  finally have lab: "labels r4 = filter (\<lambda>l. l \<noteq> ''T9'' \<and> l \<noteq> ''T10'') (map rename_label (labels r0))" .
  have "\<forall>l \<in> set (labels r4). rename_label l = l"
    unfolding lab by (auto simp: rename_label_def strip_idem)
  moreover have "''T9'' \<notin> set (labels r4)" "''T10'' \<notin> set (labels r4)"
    unfolding lab by auto
  ultimately show ?thesis using fin cat by blast
qed

text \<open>
  Claim C7: after a run of the script that completed, applying the mutating statements
  again to the recording it left, without a fresh load, fails at the drop step: the
  rename step completes and changes nothing, then the drop step raises because neither
  T9 nor T10 names a channel any more, and the later steps are not started. The same
  holds when the montage is built again on the way.
\<close>

theorem second_pass_fails_at_drop:
  assumes "raised (script (mne_spec fs catalog rebase)) = None"
  shows "exec (mutating_steps (mne_spec fs catalog rebase))
              (final (script (mne_spec fs catalog rebase))) =
           \<lparr>final = final (script (mne_spec fs catalog rebase)),
            executed = [Rename, Drop],
            raised = Some (Raised (ChannelsNotFound [''T9'', ''T10'']))\<rparr>
    \<and> exec (tl (program (mne_spec fs catalog rebase)))
              (final (script (mne_spec fs catalog rebase))) =
           \<lparr>final = final (script (mne_spec fs catalog rebase)),
            executed = [Rename, MakeMontage, Drop],
            raised = Some (Raised (ChannelsNotFound [''T9'', ''T10'']))\<rparr>"
proof -
  let ?lib = "mne_spec fs catalog rebase"
  from script_completed [OF assms] obtain r m where
    fin: "final (script ?lib) = \<lparr>raw = Some r, montage = Some m\<rparr>"
    and cat: "catalog ''easycap-M1'' = Some m"
    and fixed: "\<forall>l \<in> set (labels r). rename_label l = l"
    and gone: "''T9'' \<notin> set (labels r)" "''T10'' \<notin> set (labels r)"
    by blast
  let ?g = "\<lparr>raw = Some r, montage = Some m\<rparr>"
  have rename: "stmt_rename ?lib ?g = (?g, None)"
    by (simp add: stmt_rename_spec rename_fixed_labels [OF fixed])
  have build: "stmt_make_montage ?lib ?g = (?g, None)"
    by (simp add: stmt_make_montage_def mne_spec_def spec_make_standard_montage_def cat)
  have "spec_drop_channels [''T9'', ''T10''] r = (r, Some (ChannelsNotFound [''T9'', ''T10'']))"
    using gone by (simp add: drop_absent)
  then have drop: "stmt_drop ?lib ?g = (?g, Some (Raised (ChannelsNotFound [''T9'', ''T10''])))"
    by (simp add: stmt_drop_spec)
  show ?thesis
    unfolding fin by (simp add: mutating_steps_def program_def rename build drop)
qed

theorem second_pass_fails_at_drop_witness:
  "raised (script example_lib) = None
   \<and> labels (the (raw (final (script example_lib)))) = [''Fp1'', ''Cz'']
   \<and> exec (mutating_steps example_lib) (final (script example_lib)) =
       \<lparr>final = final (script example_lib),
        executed = [Rename, Drop],
        raised = Some (Raised (ChannelsNotFound [''T9'', ''T10'']))\<rparr>"
proof -
  have low: "lower ''FP1'' = ''fp1''" "lower ''Fp1'' = ''fp1''" "lower ''Cz'' = ''cz''"
    "lower ''T9'' = ''t9''" "lower ''T10'' = ''t10''"
    by code_simp+
  have run: "script example_lib =
     \<lparr>final =
        \<lparr>raw = Some \<lparr>channels = [\<lparr>label = ''Fp1'', samples = [0, 0], position = Some 11\<rparr>,
                                  \<lparr>label = ''Cz'', samples = [-1, -3], position = Some 12\<rparr>],
                      reference = ''average''\<rparr>,
         montage = Some [(''FP1'', 11), (''Cz'', 12), (''T9'', 13), (''T10'', 14)]\<rparr>,
      executed = [Load, Rename, MakeMontage, Drop, SetMontage, Reref],
      raised = None\<rparr>"
    by (simp add: script_def program_def start_def example_lib_def mne_spec_def
        stmt_load_def stmt_rename_def stmt_make_montage_def stmt_drop_def
        stmt_set_montage_def stmt_reref_def call_on_raw_def
        spec_read_raw_edf_def spec_rename_channels_def spec_make_standard_montage_def
        spec_drop_channels_def spec_set_montage_def spec_set_eeg_reference_def
        example_fs_def example_catalog_def example_recording_def example_rebase_def
        labels_def match_key_def low Let_def rename_label_def strip_def rstrip_def)
  then have ok: "raised (script (mne_spec example_fs example_catalog example_rebase)) = None"
    by (simp add: example_lib_def)
  show ?thesis
    using second_pass_fails_at_drop [OF ok] by (simp add: example_lib_def [symmetric] run labels_def)
qed

subsection \<open>Re-referencing to the average\<close>

lemma stmt_reref_spec:
  "raw g = Some r \<Longrightarrow>
     stmt_reref (mne_spec fs catalog rebase) g =
       (g\<lparr>raw := Some (fst (spec_set_eeg_reference rebase ''average'' r))\<rparr>, None)"
  by (simp add: stmt_reref_def call_on_raw_def mne_spec_def spec_set_eeg_reference_def)

lemma channels_set_eeg_reference:
  "channels (fst (spec_set_eeg_reference rebase ref r)) =
     map (\<lambda>c. c\<lparr>samples := rebase (map samples (channels r)) (samples c)\<rparr>) (channels r)"
  by (simp add: spec_set_eeg_reference_def)

lemma mean_at_set_eeg_reference:
  "mean_at (fst (spec_set_eeg_reference rebase ref r)) i =
     mean (map (\<lambda>c. rebase (map samples (channels r)) (samples c) ! i) (channels r))"
  by (simp add: mean_at_def channels_set_eeg_reference comp_def)

lemma sum_list_centred:
  fixes f :: "'c \<Rightarrow> real"
  assumes "cs \<noteq> []"
  shows "(\<Sum>c\<leftarrow>cs. f c - mean (map f cs)) = 0"
proof -
  have "(\<Sum>c\<leftarrow>cs. f c - mean (map f cs)) =
          sum_list (map f cs) - real (length cs) * mean (map f cs)"
    by (simp add: sum_list_subtractf sum_list_triv)
  also have "\<dots> = 0" using assms by (simp add: mean_def)
  finally show ?thesis .
qed

lemma average_rebase_nth:
  "j < length row \<Longrightarrow> average_rebase rows row ! j = row ! j - mean (map (\<lambda>x. x ! j) rows)"
  by (simp add: average_rebase_def)

lemma average_rebase_exact:
  assumes "\<forall>c \<in> set (channels r). length (samples c) = n"
  shows "rebase_within 0 average_rebase r n"
  using assms
  by (auto simp: rebase_within_def average_rebase_nth mean_at_def comp_def average_rebase_def)

lemma mean_within:
  assumes "cs \<noteq> []" and "\<forall>c \<in> set cs. \<bar>h c - (f c - mean (map f cs))\<bar> \<le> eps"
  shows "\<bar>mean (map h cs)\<bar> \<le> eps"
proof -
  let ?e = "\<lambda>c. h c - (f c - mean (map f cs))"
  have "sum_list (map h cs) = (\<Sum>c\<leftarrow>cs. (f c - mean (map f cs)) + ?e c)"
    by simp
  also have "\<dots> = (\<Sum>c\<leftarrow>cs. f c - mean (map f cs)) + (\<Sum>c\<leftarrow>cs. ?e c)"
    by (rule sum_list_addf)
  also have "\<dots> = (\<Sum>c\<leftarrow>cs. ?e c)"
    using sum_list_centred [OF assms(1), of f] by simp
  finally have "\<bar>sum_list (map h cs)\<bar> = \<bar>\<Sum>c\<leftarrow>cs. ?e c\<bar>" by simp
  also have "\<dots> \<le> (\<Sum>c\<leftarrow>cs. \<bar>?e c\<bar>)"
    using sum_list_abs [of "map ?e cs"] by (simp add: comp_def)
  also have "\<dots> \<le> (\<Sum>c\<leftarrow>cs. eps)"
    using assms(2) by (intro sum_list_mono) auto
  also have "\<dots> = real (length cs) * eps" by (simp add: sum_list_triv)
  finally have "\<bar>sum_list (map h cs)\<bar> \<le> real (length cs) * eps" .
  moreover have "0 < real (length cs)" using assms(1) by simp
  ultimately have "\<bar>sum_list (map h cs)\<bar> / real (length cs) \<le> eps"
    by (simp add: pos_divide_le_eq mult.commute)
  then show ?thesis by (simp add: mean_def)
qed

text \<open>
  Claim C3: on a recording with at least one channel, all channels holding \<open>n\<close> samples,
  the re-reference step completes and rebinds nothing: the same object carries the new
  data. With the exact arithmetic every channel keeps its label and its value at every
  sample index \<open>i < n\<close> becomes the old value minus the mean of all channels at \<open>i\<close>, and
  the mean of all channels at \<open>i\<close> is then zero. With any arithmetic that stays within
  \<open>eps\<close> of the exact values, the mean of all channels at \<open>i\<close> is afterwards at most
  \<open>eps\<close> away from zero.
\<close>

theorem reref_step_mean_zero:
  assumes "raw g = Some r" and "channels r \<noteq> []"
    and "\<forall>c \<in> set (channels r). length (samples c) = n" and "i < n"
  shows "snd (stmt_reref (mne_spec fs catalog average_rebase) g) = None
    \<and> (let r' = the (raw (fst (stmt_reref (mne_spec fs catalog average_rebase) g))) in
         fst (stmt_reref (mne_spec fs catalog average_rebase) g) = g\<lparr>raw := Some r'\<rparr>
         \<and> length (channels r') = length (channels r)
         \<and> (\<forall>k < length (channels r).
               label (channels r' ! k) = label (channels r ! k)
               \<and> samples (channels r' ! k) ! i = samples (channels r ! k) ! i - mean_at r i)
         \<and> mean_at r' i = 0)
    \<and> (rebase_within eps rebase r n \<longrightarrow>
         snd (stmt_reref (mne_spec fs catalog rebase) g) = None
         \<and> \<bar>mean_at (the (raw (fst (stmt_reref (mne_spec fs catalog rebase) g)))) i\<bar> \<le> eps)"
proof -
  have approx: "\<bar>mean_at (fst (spec_set_eeg_reference rb ''average'' r)) i\<bar> \<le> e"
    if "rebase_within e rb r n" for rb e
  proof -
    have "\<forall>c \<in> set (channels r).
        \<bar>rb (map samples (channels r)) (samples c) ! i
           - (samples c ! i - mean (map (\<lambda>c. samples c ! i) (channels r)))\<bar> \<le> e"
      using that assms(4) by (auto simp: rebase_within_def mean_at_def)
    from mean_within [OF assms(2) this] show ?thesis
      by (simp add: mean_at_set_eeg_reference)
  qed
  let ?r' = "fst (spec_set_eeg_reference average_rebase ''average'' r)"
  have "\<bar>mean_at ?r' i\<bar> \<le> 0"
    using assms(3) by (intro approx average_rebase_exact)
  then have zero: "mean_at ?r' i = 0" by simp
  have each: "label (channels ?r' ! k) = label (channels r ! k)
      \<and> samples (channels ?r' ! k) ! i = samples (channels r ! k) ! i - mean_at r i"
    if "k < length (channels r)" for k
  proof -
    have "length (samples (channels r ! k)) = n" using that assms(3) by simp
    then show ?thesis using that assms(4)
      by (simp add: channels_set_eeg_reference average_rebase_nth mean_at_def comp_def)
  qed
  have len: "length (channels ?r') = length (channels r)"
    by (simp add: channels_set_eeg_reference)
  show ?thesis
    using zero each len approx [of eps rebase] assms(1)
    by (simp add: stmt_reref_spec Let_def)
qed


theorem reref_step_mean_zero_witness:
  "map samples (channels (the (raw (fst (stmt_reref
       (mne_spec Map.empty Map.empty average_rebase)
       \<lparr>raw = Some \<lparr>channels = [\<lparr>label = ''Fp1'', samples = [4, 8], position = Some (11 :: nat)\<rparr>,
                                 \<lparr>label = ''Cz'', samples = [3, 5], position = Some 12\<rparr>],
                     reference = ''none''\<rparr>,
        montage = None\<rparr>))))) = [[1 / 2, 3 / 2], [- 1 / 2, - 3 / 2]]
   \<and> mean_at (the (raw (fst (stmt_reref
       (mne_spec Map.empty Map.empty average_rebase)
       \<lparr>raw = Some \<lparr>channels = [\<lparr>label = ''Fp1'', samples = [4, 8], position = Some (11 :: nat)\<rparr>,
                                 \<lparr>label = ''Cz'', samples = [3, 5], position = Some 12\<rparr>],
                     reference = ''none''\<rparr>,
        montage = None\<rparr>)))) 0 = 0
   \<and> rebase_within (1 / 8) (\<lambda>rows row. map (\<lambda>x. x + 1 / 8) (average_rebase rows row))
        \<lparr>channels = [\<lparr>label = ''Fp1'', samples = [4, 8], position = Some (11 :: nat)\<rparr>,
                                 \<lparr>label = ''Cz'', samples = [3, 5], position = Some 12\<rparr>],
                     reference = ''none''\<rparr> 2
   \<and> \<bar>mean_at (the (raw (fst (stmt_reref
       (mne_spec Map.empty Map.empty (\<lambda>rows row. map (\<lambda>x. x + 1 / 8) (average_rebase rows row)))
       \<lparr>raw = Some \<lparr>channels = [\<lparr>label = ''Fp1'', samples = [4, 8], position = Some (11 :: nat)\<rparr>,
                                 \<lparr>label = ''Cz'', samples = [3, 5], position = Some 12\<rparr>],
                     reference = ''none''\<rparr>,
        montage = None\<rparr>)))) 0\<bar> \<le> 1 / 8"
proof -
  let ?r = "\<lparr>channels = [\<lparr>label = ''Fp1'', samples = [4, 8 :: real], position = Some (11 :: nat)\<rparr>,
                                 \<lparr>label = ''Cz'', samples = [3, 5], position = Some 12\<rparr>],
                     reference = ''none''\<rparr>"
  let ?g = "\<lparr>raw = Some ?r, montage = None :: nat montage_table option\<rparr>"
  let ?rb = "\<lambda>rows row. map (\<lambda>x. x + 1 / 8) (average_rebase rows row)"
  have a: "raw ?g = Some ?r" by simp
  have b: "channels ?r \<noteq> []" by simp
  have c: "\<forall>c \<in> set (channels ?r). length (samples c) = 2" by simp
  have d: "(0 :: nat) < 2" by simp
  have within: "rebase_within (1 / 8) ?rb ?r 2"
    by (simp add: rebase_within_def average_rebase_def mean_at_def mean_def
        less_Suc_eq eval_nat_numeral all_conj_distrib)
  have exact: "map samples (channels (the (raw (fst (stmt_reref
       (mne_spec Map.empty Map.empty average_rebase) ?g))))) = [[1 / 2, 3 / 2], [- 1 / 2, - 3 / 2]]"
    by (simp add: stmt_reref_def call_on_raw_def mne_spec_def spec_set_eeg_reference_def
        average_rebase_def mean_def)
  show ?thesis
    using reref_step_mean_zero [OF a b c d, of Map.empty Map.empty "1 / 8" ?rb] within exact
    by (simp add: Let_def)
qed

end
